theory Spec2Isabelle
  imports Complex_Main "HOL-Library.Product_Lexorder" "HOL-Library.Multiset" "HOL-Library.Log_Nat"
begin

section \<open>ASCII process viewer: the embedding of \<open>ascii_process_viewer.py\<close>\<close>

text \<open>
  Conventions of the embedding.
  \<^item> Python's unbounded \<open>int\<close> is \<^typ>\<open>int\<close>; \<open>//\<close> on ints is floor division, as
    \<open>div\<close> on \<^typ>\<open>int\<close> is.
  \<^item> A Python \<open>float\<close> is the \<^typ>\<open>real\<close> number that the double stands for, and the
    arithmetic on floats rounds every result to the nearest double (section Floating
    point below). The percentages of a record are such values.
  \<^item> A Python \<open>str\<close> is a \<^typ>\<open>string\<close>, one list element per character, so that
    \<open>length\<close> is Python's \<open>len\<close>.
  \<^item> What \<open>draw\<close> prints is the list of the arguments of its \<open>print\<close> calls, in order.
\<close>

subsection \<open>Configuration\<close>

definition MIN_BAR_WIDTH :: int where
  "MIN_BAR_WIDTH = 10"

definition MAX_NAME_LEN :: int where
  "MAX_NAME_LEN = 25"

subsection \<open>Python primitives used by the program\<close>

text \<open>\<open>s * n\<close> for a one-character string: empty when \<open>n \<le> 0\<close>.\<close>

definition str_mul :: "char \<Rightarrow> int \<Rightarrow> string" where
  "str_mul c n = replicate (nat n) c"

text \<open>The slice \<open>xs[:n]\<close>: a negative \<open>n\<close> counts from the end.\<close>

definition slice_to :: "'a list \<Rightarrow> int \<Rightarrow> 'a list" where
  "slice_to xs n = (if n < 0 then take (nat (int (length xs) + n)) xs else take (nat n) xs)"

text \<open>The format specifications \<open><w\<close> and \<open>>w\<close> on a string: pad with spaces, never cut.\<close>

definition ljust :: "string \<Rightarrow> int \<Rightarrow> string" where
  "ljust s w = s @ str_mul CHR '' '' (w - int (length s))"

definition rjust :: "string \<Rightarrow> int \<Rightarrow> string" where
  "rjust s w = str_mul CHR '' '' (w - int (length s)) @ s"

text \<open>The builtin \<open>round\<close> with one argument: to the nearest integer, a tie to the even one.\<close>

definition py_round :: "real \<Rightarrow> int" where
  "py_round x =
     (let f = \<lfloor>x\<rfloor>; d = x - of_int f
      in if d < 1 / 2 then f
         else if 1 / 2 < d then f + 1
         else if even f then f else f + 1)"

subsection \<open>Floating point\<close>

text \<open>
  A \<open>float\<close> is an IEEE 754 double, and a double is here the real number it stands
  for. The result of an arithmetic operation is the exact result rounded to the nearest
  double, a tie going to the double with the even significand. \<open>ilog2 x\<close> is the binary
  exponent of a positive \<open>x\<close>, the integer \<open>k\<close> with \<open>2 ^ k \<le> x < 2 ^ (k + 1)\<close>; \<open>fl_exp x\<close>
  is the exponent of the last of the 53 bits of the significand, not below that of the
  subnormal numbers; \<open>fl x\<close> is \<open>x\<close> rounded to a multiple of \<open>2 ^ fl_exp x\<close>. The
  exponent has no upper bound here: the overflow to infinity past \<open>2 ^ 1024\<close>, and the
  \<open>OverflowError\<close> of converting an integer that large, are outside the model, as are
  NaN and the sign of zero.
\<close>

definition ilog2 :: "real \<Rightarrow> int" where
  "ilog2 x = (if 1 \<le> x then bitlen \<lfloor>x\<rfloor> - 1 else - bitlen (\<lceil>1 / x\<rceil> - 1))"

definition fl_exp :: "real \<Rightarrow> int" where
  "fl_exp x = max (ilog2 \<bar>x\<bar> - 52) (- 1074)"

definition fl :: "real \<Rightarrow> real" where
  "fl x = (if x = 0 then 0 else of_int (py_round (x / 2 powi fl_exp x)) * 2 powi fl_exp x)"

text \<open>The conversion of an \<open>int\<close> operand to \<open>float\<close>, and \<open>/\<close> and \<open>*\<close> on floats.\<close>

definition float_of_int :: "int \<Rightarrow> real" where
  "float_of_int n = fl (of_int n)"

definition fdiv :: "real \<Rightarrow> real \<Rightarrow> real" where
  "fdiv a b = fl (a / b)"

definition fmul :: "real \<Rightarrow> real \<Rightarrow> real" where
  "fmul a b = fl (a * b)"

subsection \<open>Strings of numbers\<close>

text \<open>\<open>str\<close> of an integer, in decimal.\<close>

definition digit_char :: "nat \<Rightarrow> char" where
  "digit_char d = ''0123456789'' ! (d mod 10)"

fun str_nat :: "nat \<Rightarrow> string" where
  "str_nat n = (if n < 10 then [digit_char n] else str_nat (n div 10) @ [digit_char (n mod 10)])"

definition str_int :: "int \<Rightarrow> string" where
  "str_int i = (if i < 0 then ''-'' @ str_nat (nat (- i)) else str_nat (nat i))"

text \<open>
  The format specification \<open>.1f\<close>: the sign, the integer part and one decimal digit of the
  exact value of the double rounded to the nearest tenth (a tie to the even tenth).
\<close>

definition fmt_1f :: "real \<Rightarrow> string" where
  "fmt_1f x =
     (let n = nat (py_round (\<bar>x\<bar> * 10))
      in (if x < 0 then ''-'' else '''') @ str_nat (n div 10) @ ''.'' @ [digit_char (n mod 10)])"

subsection \<open>Utility functions\<close>

definition clamp :: "real \<Rightarrow> real \<Rightarrow> real \<Rightarrow> real" where
  "clamp v a b = max a (min b v)"

text \<open>
  The local \<open>filled\<close> of \<open>proportion_bar\<close>, \<open>int(round((value / 100.0) * width))\<close>
  with the clamped value: a float division, the conversion of \<open>width\<close> to a float, a
  float multiplication, and the rounding of the product to an integer.
\<close>

definition filled :: "real \<Rightarrow> int \<Rightarrow> int" where
  "filled v width = py_round (fmul (fdiv (clamp v 0 100) 100) (float_of_int width))"

definition proportion_bar :: "real \<Rightarrow> int \<Rightarrow> string" where
  "proportion_bar v width =
     (let fl = filled v width;
          empty = width - fl
      in ''['' @ str_mul CHR ''#'' fl @ str_mul CHR '' '' empty @ '']'')"


subsection \<open>The layout computed at the head of \<open>draw\<close>\<close>

definition pid_w :: int where
  "pid_w = 6"

definition cpu_pct_w :: int where
  "cpu_pct_w = 6"

definition mem_pct_w :: int where
  "mem_pct_w = 6"

definition name_w :: int where
  "name_w = 1 + MAX_NAME_LEN"

definition reserved :: int where
  "reserved = pid_w + name_w + cpu_pct_w + mem_pct_w + 10"

definition bar_space :: "int \<Rightarrow> int" where
  "bar_space term_width = max MIN_BAR_WIDTH (term_width - reserved)"

definition cpu_bar_w :: "int \<Rightarrow> int" where
  "cpu_bar_w term_width = bar_space term_width div 2"

definition mem_bar_w :: "int \<Rightarrow> int" where
  "mem_bar_w term_width = bar_space term_width - cpu_bar_w term_width"

subsection \<open>Process records and the sampler \<open>fetch_processes\<close>\<close>

text \<open>The dictionary built for each process: the keys \<open>pid\<close>, \<open>name\<close>, \<open>cpu\<close>, \<open>mem\<close>.\<close>

record proc =
  pid :: int
  name :: string
  cpu :: real
  mem :: real

text \<open>
  The exceptions a query on one process can raise. \<open>fetch_processes\<close> catches
  \<open>NoSuchProcess\<close> and \<open>AccessDenied\<close>; anything else propagates to the caller.
\<close>

datatype psutil_error = NoSuchProcess | AccessDenied | OtherError

text \<open>
  One entry of \<open>psutil.process_iter(['pid', 'name'])\<close>, the external process table: the
  prefetched \<open>info\<close> (a name may be \<open>None\<close>) and what the two metric queries answer.
\<close>

record process =
  info_pid :: int
  info_name :: "string option"
  cpu_percent :: "psutil_error + real"
  memory_percent :: "psutil_error + real"

text \<open>\<open>info.get('name') or ''\<close>: \<open>None\<close> and the empty string both give the empty string.\<close>

definition name_or_empty :: "string option \<Rightarrow> string" where
  "name_or_empty n = (case n of None \<Rightarrow> [] | Some s \<Rightarrow> s)"

text \<open>The body of the \<open>try\<close> block: the queries in the order of the source.\<close>

definition fetch_one :: "process \<Rightarrow> psutil_error + proc" where
  "fetch_one p =
     (case cpu_percent p of
        Inl e \<Rightarrow> Inl e
      | Inr c \<Rightarrow>
          (case memory_percent p of
             Inl e \<Rightarrow> Inl e
           | Inr m \<Rightarrow>
               Inr \<lparr>pid = info_pid p,
                    name = slice_to (name_or_empty (info_name p)) MAX_NAME_LEN,
                    cpu = c,
                    mem = m\<rparr>))"

text \<open>The \<open>for\<close> loop, with the list \<open>procs\<close> built so far.\<close>

fun fetch_loop :: "process list \<Rightarrow> proc list \<Rightarrow> psutil_error + proc list" where
  "fetch_loop [] procs = Inr procs"
| "fetch_loop (p # ps) procs =
     (case fetch_one p of
        Inr r \<Rightarrow> fetch_loop ps (procs @ [r])
      | Inl e \<Rightarrow>
          if e = NoSuchProcess \<or> e = AccessDenied then fetch_loop ps procs
          else Inl e)"

definition fetch_processes :: "process list \<Rightarrow> psutil_error + proc list" where
  "fetch_processes table = fetch_loop table []"

text \<open>
  What the sampler is expected to return, in the words of its contract: a process is
  accessible when both of its metric queries answer, and an accessible process gives the
  record of its identifier, its name cut to \<open>MAX_NAME_LEN\<close> and the two answers.
\<close>

definition accessible :: "process \<Rightarrow> bool" where
  "accessible p \<longleftrightarrow> \<not> isl (cpu_percent p) \<and> \<not> isl (memory_percent p)"

definition record_of :: "process \<Rightarrow> proc" where
  "record_of p =
     \<lparr>pid = info_pid p,
      name = take 25 (name_or_empty (info_name p)),
      cpu = projr (cpu_percent p),
      mem = projr (memory_percent p)\<rparr>"

text \<open>A query that signals nothing but the two expected conditions.\<close>

definition skippable :: "psutil_error + real \<Rightarrow> bool" where
  "skippable q \<longleftrightarrow> q \<noteq> Inl OtherError"

subsection \<open>Ranking: the \<open>sort\<close> call of \<open>main\<close>\<close>

text \<open>
  \<open>list.sort(key=..., reverse=True)\<close> is a stable sort that keeps the order of elements
  with equal keys also when reversed: the list is reversed, sorted stably in ascending
  order of the key, and reversed again. Tuples compare lexicographically.
\<close>

definition sort_reverse :: "('a \<Rightarrow> 'k::linorder) \<Rightarrow> 'a list \<Rightarrow> 'a list" where
  "sort_reverse key xs = rev (sort_key key (rev xs))"

definition rank_key :: "proc \<Rightarrow> real \<times> real" where
  "rank_key x = (cpu x, mem x)"

definition rank :: "proc list \<Rightarrow> proc list" where
  "rank procs = sort_reverse rank_key procs"

text \<open>The order the ranked list is meant to be in: CPU descending, and for equal CPU
  memory descending.\<close>

definition ranked_before :: "proc \<Rightarrow> proc \<Rightarrow> bool" where
  "ranked_before a b \<longleftrightarrow> cpu b < cpu a \<or> (cpu a = cpu b \<and> mem b \<le> mem a)"

subsection \<open>The display: \<open>draw\<close>\<close>

definition rule_line :: "int \<Rightarrow> string" where
  "rule_line term_width = str_mul CHR ''-'' term_width"

definition header_line :: "int \<Rightarrow> string" where
  "header_line term_width =
     ljust ''PID'' pid_w @ '' '' @ ljust ''NAME'' name_w @ '' ''
     @ rjust ''CPU%'' cpu_pct_w @ '' '' @ ljust ''CPU BAR'' (cpu_bar_w term_width + 2) @ '' ''
     @ rjust ''MEM%'' mem_pct_w @ '' '' @ ljust ''MEM BAR'' (mem_bar_w term_width + 2)"

text \<open>The two bars of a row, as the loop body calls \<open>proportion_bar\<close>.\<close>

definition cpu_bar :: "int \<Rightarrow> proc \<Rightarrow> string" where
  "cpu_bar term_width p = proportion_bar (cpu p) (cpu_bar_w term_width - 2)"

definition mem_bar :: "int \<Rightarrow> proc \<Rightarrow> string" where
  "mem_bar term_width p = proportion_bar (mem p) (mem_bar_w term_width - 2)"

definition data_line :: "int \<Rightarrow> proc \<Rightarrow> string" where
  "data_line term_width p =
     ljust (slice_to (str_int (pid p)) pid_w) pid_w @ '' ''
     @ ljust (slice_to (name p) MAX_NAME_LEN) name_w @ '' ''
     @ rjust (fmt_1f (cpu p)) cpu_pct_w @ ''% '' @ cpu_bar term_width p @ '' ''
     @ rjust (fmt_1f (mem p)) mem_pct_w @ ''% '' @ mem_bar term_width p"

text \<open>
  The title line. The dash between its two halves is not an ASCII character; it is the
  argument \<open>dash\<close>.
\<close>

definition title_line :: "string \<Rightarrow> int \<Rightarrow> real \<Rightarrow> string" where
  "title_line dash top_n refresh_interval =
     ''ASCII Process Viewer '' @ dash @ '' top '' @ str_int top_n
     @ '' processes by CPU (refresh '' @ fmt_1f refresh_interval @ ''s)''"

definition footer_line :: "int \<Rightarrow> proc list \<Rightarrow> int \<Rightarrow> string" where
  "footer_line total_procs procs top_n =
     ''Processes: '' @ str_int total_procs @ '' | Showing top ''
     @ str_int (min top_n (int (length procs))) @ '' by CPU usage''"

text \<open>
  What \<open>draw\<close> prints, one element per \<open>print\<close> call. The banner literal \<open>logo\<close> (block
  characters outside ASCII) and the dash are arguments, and so is \<open>total_procs\<close>, the
  length of \<open>psutil.pids()\<close>.
\<close>

definition draw ::
  "string \<Rightarrow> string \<Rightarrow> int \<Rightarrow> proc list \<Rightarrow> int \<Rightarrow> int \<Rightarrow> real \<Rightarrow> string list" where
  "draw logo dash total_procs procs term_width top_n refresh_interval =
     [logo, title_line dash top_n refresh_interval, rule_line term_width,
      header_line term_width, rule_line term_width]
     @ map (data_line term_width) (slice_to procs top_n)
     @ [rule_line term_width, footer_line total_procs procs top_n]"

text \<open>The data rows among the printed lines: what lies between the five lines of the
  head and the two lines of the foot.\<close>

definition data_rows :: "string list \<Rightarrow> string list" where
  "data_rows out = butlast (butlast (drop 5 out))"

section \<open>Properties\<close>

subsection \<open>Layout\<close>

lemma reserved_eq: "reserved = 54"
  by (simp add: reserved_def pid_w_def name_w_def cpu_pct_w_def mem_pct_w_def MAX_NAME_LEN_def)

lemma bar_space_eq: "bar_space tw = max 10 (tw - 54)"
  by (simp add: bar_space_def MIN_BAR_WIDTH_def reserved_eq)

lemma bar_widths_sum: "cpu_bar_w tw + mem_bar_w tw = bar_space tw"
  by (simp add: mem_bar_w_def)

lemma cpu_bar_w_ge5: "5 \<le> cpu_bar_w tw"
  by (simp add: cpu_bar_w_def bar_space_eq)

lemma mem_bar_w_ge5: "5 \<le> mem_bar_w tw"
  unfolding mem_bar_w_def cpu_bar_w_def bar_space_eq by linarith

text \<open>
  Claim C2. On a terminal of at least \<open>reserved + 2 * MIN_BAR_WIDTH\<close> columns (74 with the
  constants of the program) the two bars together take no more than what is left beside
  the reserved columns, each bar is at least \<open>MIN_BAR_WIDTH\<close> wide, the CPU bar is the
  floor of half the bar space and the memory bar is the rest, so it gets the odd column.
\<close>

theorem layout_wide_terminal:
  assumes "reserved + 2 * MIN_BAR_WIDTH \<le> tw"
  shows "reserved + 2 * MIN_BAR_WIDTH = 74
    \<and> cpu_bar_w tw + mem_bar_w tw \<le> tw - reserved
    \<and> MIN_BAR_WIDTH \<le> cpu_bar_w tw
    \<and> MIN_BAR_WIDTH \<le> mem_bar_w tw
    \<and> cpu_bar_w tw = \<lfloor>real_of_int (bar_space tw) / 2\<rfloor>
    \<and> mem_bar_w tw = bar_space tw - cpu_bar_w tw
    \<and> mem_bar_w tw = cpu_bar_w tw + bar_space tw mod 2"
proof -
  from assms have tw: "74 \<le> tw"
    by (simp add: reserved_eq MIN_BAR_WIDTH_def)
  have c1: "reserved + 2 * MIN_BAR_WIDTH = 74"
    by (simp add: reserved_eq MIN_BAR_WIDTH_def)
  from tw have bs: "bar_space tw = tw - 54"
    by (simp add: bar_space_eq)
  have c2: "cpu_bar_w tw + mem_bar_w tw \<le> tw - reserved"
    by (simp add: bar_widths_sum bs reserved_eq)
  from tw have c3: "MIN_BAR_WIDTH \<le> cpu_bar_w tw"
    by (simp add: cpu_bar_w_def bs MIN_BAR_WIDTH_def)
  from tw have c4: "MIN_BAR_WIDTH \<le> mem_bar_w tw"
    unfolding mem_bar_w_def cpu_bar_w_def bs MIN_BAR_WIDTH_def by linarith
  have c5: "cpu_bar_w tw = \<lfloor>real_of_int (bar_space tw) / 2\<rfloor>"
    by (simp add: cpu_bar_w_def floor_divide_of_int_eq [of _ 2, simplified])
  have c6: "mem_bar_w tw = bar_space tw - cpu_bar_w tw"
    by (simp add: mem_bar_w_def)
  have c7: "mem_bar_w tw = cpu_bar_w tw + bar_space tw mod 2"
    unfolding mem_bar_w_def cpu_bar_w_def by presburger
  from c1 c2 c3 c4 c5 c6 c7 show ?thesis
    by blast
qed

theorem layout_wide_terminal_witness:
  "reserved + 2 * MIN_BAR_WIDTH \<le> 81
   \<and> cpu_bar_w 81 = 13 \<and> mem_bar_w 81 = 14
   \<and> cpu_bar_w 81 + mem_bar_w 81 \<le> 81 - reserved
   \<and> MIN_BAR_WIDTH \<le> cpu_bar_w 81 \<and> MIN_BAR_WIDTH \<le> mem_bar_w 81"
proof -
  have h: "reserved + 2 * MIN_BAR_WIDTH \<le> 81"
    by (simp add: reserved_eq MIN_BAR_WIDTH_def)
  have v: "cpu_bar_w 81 = 13" "mem_bar_w 81 = 14"
    by (simp_all add: mem_bar_w_def cpu_bar_w_def bar_space_eq)
  from h v layout_wide_terminal [OF h] show ?thesis
    by simp
qed

text \<open>
  Claim C1. Each bar is to be at least \<open>MIN_BAR_WIDTH\<close> wide on every terminal, also on
  one too narrow for the reserved columns. The program floors the space of the two bars
  together at \<open>MIN_BAR_WIDTH\<close> and then halves it: on a terminal of 60 columns the bar
  space is 10 and each bar is 5 wide, half the minimum.
\<close>

theorem narrow_terminal_bar_widths:
  "MIN_BAR_WIDTH = 10 \<and> bar_space 60 = 10 \<and> cpu_bar_w 60 = 5 \<and> mem_bar_w 60 = 5"
  by (simp add: MIN_BAR_WIDTH_def bar_space_eq cpu_bar_w_def mem_bar_w_def)

subsection \<open>Rounding to an integer\<close>

lemma length_str_mul: "length (str_mul c n) = nat n"
  by (simp add: str_mul_def)

lemma py_round_cases:
  "py_round x = \<lfloor>x\<rfloor> \<or> py_round x = \<lfloor>x\<rfloor> + 1"
  by (simp add: py_round_def Let_def)

lemma py_round_of_int: "py_round (of_int n) = n"
  by (simp add: py_round_def)

lemma py_round_ge_floor: "\<lfloor>x\<rfloor> \<le> py_round x"
  by (simp add: py_round_def Let_def)

lemma py_round_mono:
  assumes "x \<le> y"
  shows "py_round x \<le> py_round y"
proof (cases "\<lfloor>x\<rfloor> = \<lfloor>y\<rfloor>")
  case True
  with assms show ?thesis
    by (auto simp: py_round_def Let_def)
next
  case False
  with assms have "\<lfloor>x\<rfloor> < \<lfloor>y\<rfloor>"
    using floor_mono [of x y] by linarith
  moreover have "py_round x \<le> \<lfloor>x\<rfloor> + 1"
    using py_round_cases [of x] by linarith
  ultimately show ?thesis
    using py_round_ge_floor [of y] by linarith
qed



subsection \<open>Rounding to a double\<close>

lemma ilog2_bounds:
  assumes "0 < x"
  shows "2 powi ilog2 x \<le> x" and "x < 2 powi (ilog2 x + 1)"
proof -
  have "2 powi ilog2 x \<le> x \<and> x < 2 powi (ilog2 x + 1)"
  proof (cases "1 \<le> x")
    case True
    then have n: "0 < \<lfloor>x\<rfloor>"
      by simp
    let ?n = "\<lfloor>x\<rfloor>"
    from n have b1: "1 \<le> bitlen ?n"
      using bitlen_eq_zero_iff [of ?n] bitlen_nonneg [of ?n] by linarith
    from bitlen_bounds [OF n] have lo: "2 ^ nat (bitlen ?n - 1) \<le> ?n" and hi: "?n < 2 ^ nat (bitlen ?n)"
      by simp_all
    from lo have "real_of_int (2 ^ nat (bitlen ?n - 1)) \<le> x"
      by (simp only: le_floor_iff)
    then have l: "2 powi (bitlen ?n - 1) \<le> x"
      using b1 by (simp add: power_int_nonneg_exp)
    from hi have "x < real_of_int (2 ^ nat (bitlen ?n))"
      by (simp only: floor_less_iff)
    then have h: "x < 2 powi (bitlen ?n)"
      using b1 by (simp add: power_int_nonneg_exp)
    from True l h show ?thesis
      by (simp add: ilog2_def)
  next
    case False
    with assms have y: "1 < 1 / x"
      by simp
    let ?m = "\<lceil>1 / x\<rceil>"
    from y have m: "0 < ?m - 1"
      by (simp add: less_ceiling_iff)
    let ?j = "bitlen (?m - 1)"
    from m have j1: "1 \<le> ?j"
      using bitlen_eq_zero_iff [of "?m - 1"] bitlen_nonneg [of "?m - 1"] by linarith
    from bitlen_bounds [OF m] have lo: "2 ^ nat (?j - 1) \<le> ?m - 1" and hi: "?m - 1 < 2 ^ nat ?j"
      by simp_all
    from hi have "?m \<le> 2 ^ nat ?j"
      by simp
    then have "1 / x \<le> real_of_int (2 ^ nat ?j)"
      by (simp only: ceiling_le_iff)
    then have "1 / x \<le> 2 ^ nat ?j"
      by simp
    with assms have "1 \<le> x * 2 ^ nat ?j"
      by (simp add: field_simps)
    then have l: "2 powi (- ?j) \<le> x"
      using j1 by (simp add: power_int_minus power_int_nonneg_exp field_simps)
    from lo have "2 ^ nat (?j - 1) < ?m"
      by simp
    then have "real_of_int (2 ^ nat (?j - 1)) < 1 / x"
      by (simp only: less_ceiling_iff)
    then have "2 ^ nat (?j - 1) < 1 / x"
      by simp
    with assms have "x < 1 / 2 ^ nat (?j - 1)"
      by (simp add: field_simps)
    moreover have "(2::real) powi (- ?j + 1) = 1 / 2 ^ nat (?j - 1)"
    proof -
      have "- ?j + 1 = - (?j - 1)"
        by simp
      then have "(2::real) powi (- ?j + 1) = 2 powi (- (?j - 1))"
        by simp
      also have "\<dots> = 1 / 2 powi (?j - 1)"
        by (rule power_int_minus_divide)
      also have "\<dots> = 1 / 2 ^ nat (?j - 1)"
        using j1 by (simp add: power_int_nonneg_exp)
      finally show ?thesis .
    qed
    ultimately have h: "x < 2 powi (- ?j + 1)"
      by (simp only:)
    from False l h show ?thesis
      by (simp add: ilog2_def)
  qed
  then show "2 powi ilog2 x \<le> x" and "x < 2 powi (ilog2 x + 1)"
    by simp_all
qed

lemma ilog2_mono:
  assumes "0 < x" and "x \<le> y"
  shows "ilog2 x \<le> ilog2 y"
proof (rule ccontr)
  assume "\<not> ilog2 x \<le> ilog2 y"
  then have "ilog2 y + 1 \<le> ilog2 x"
    by simp
  then have "(2::real) powi (ilog2 y + 1) \<le> 2 powi ilog2 x"
    by (rule power_int_increasing) simp
  also have "\<dots> \<le> x"
    using assms(1) by (rule ilog2_bounds)
  also note assms(2)
  finally show False
    using ilog2_bounds(2) [of y] assms by simp
qed

lemma pow2_pos: "0 < (2::real) powi e"
  by (simp add: zero_less_power_int)

lemma fl_exp_mono:
  assumes "0 < x" and "x \<le> y"
  shows "fl_exp x \<le> fl_exp y"
  using ilog2_mono [OF assms] assms by (simp add: fl_exp_def)


lemma fl_nonneg:
  assumes "0 \<le> x"
  shows "0 \<le> fl x"
proof (cases "x = 0")
  case True
  then show ?thesis
    by (simp add: fl_def)
next
  case False
  from assms have "0 \<le> x / 2 powi fl_exp x"
    using pow2_pos [of "fl_exp x"] by simp
  then have "0 \<le> \<lfloor>x / 2 powi fl_exp x\<rfloor>"
    by simp
  with py_round_ge_floor [of "x / 2 powi fl_exp x"] have "0 \<le> py_round (x / 2 powi fl_exp x)"
    by linarith
  with False show ?thesis
    using pow2_pos [of "fl_exp x"] by (simp add: fl_def)
qed

lemma fl_lower:
  assumes "0 < y" and "- 1074 < fl_exp y"
  shows "2 powi (fl_exp y + 52) \<le> fl y"
proof -
  let ?e = "fl_exp y"
  from assms(2) have e: "?e = ilog2 \<bar>y\<bar> - 52"
    by (simp add: fl_exp_def max_def split: if_splits)
  with assms(1) have "2 powi (?e + 52) \<le> y"
    using ilog2_bounds(1) [of y] by simp
  then have "2 powi ?e * 2 powi 52 \<le> y"
    by (simp add: power_int_add)
  then have "real_of_int (2 ^ 52) \<le> y / 2 powi ?e"
    using pow2_pos [of ?e] by (simp add: field_simps)
  then have "py_round (real_of_int (2 ^ 52)) \<le> py_round (y / 2 powi ?e)"
    by (rule py_round_mono)
  then have "2 ^ 52 \<le> py_round (y / 2 powi ?e)"
    by (simp only: py_round_of_int)
  then have "real_of_int (2 ^ 52) \<le> real_of_int (py_round (y / 2 powi ?e))"
    by (simp only: of_int_le_iff)
  then have "real_of_int (2 ^ 52) * 2 powi ?e \<le> real_of_int (py_round (y / 2 powi ?e)) * 2 powi ?e"
    using pow2_pos [of ?e] by (simp only: mult_le_cancel_right_pos)
  moreover have "real_of_int (2 ^ 52) * 2 powi ?e = 2 powi (?e + 52)"
    by (simp add: power_int_add)
  ultimately have "2 powi (?e + 52) \<le> real_of_int (py_round (y / 2 powi ?e)) * 2 powi ?e"
    by (simp only:)
  moreover from assms(1) have "fl y = real_of_int (py_round (y / 2 powi ?e)) * 2 powi ?e"
    by (simp add: fl_def)
  ultimately show ?thesis
    by (simp only:)
qed

lemma fl_upper:
  assumes "0 < x"
  shows "fl x \<le> 2 powi (fl_exp x + 53)"
proof -
  let ?e = "fl_exp x"
  have "ilog2 x + 1 \<le> ?e + 53"
    using assms by (simp add: fl_exp_def)
  then have "(2::real) powi (ilog2 x + 1) \<le> 2 powi (?e + 53)"
    by (rule power_int_increasing) simp
  with ilog2_bounds(2) [OF assms] have "x \<le> 2 powi (?e + 53)"
    by simp
  then have "x \<le> 2 powi ?e * 2 powi 53"
    by (simp add: power_int_add)
  then have "x / 2 powi ?e \<le> real_of_int (2 ^ 53)"
    using pow2_pos [of ?e] by (simp add: field_simps)
  then have "py_round (x / 2 powi ?e) \<le> py_round (real_of_int (2 ^ 53))"
    by (rule py_round_mono)
  then have "py_round (x / 2 powi ?e) \<le> 2 ^ 53"
    by (simp only: py_round_of_int)
  then have "real_of_int (py_round (x / 2 powi ?e)) \<le> real_of_int (2 ^ 53)"
    by (simp only: of_int_le_iff)
  then have "real_of_int (py_round (x / 2 powi ?e)) * 2 powi ?e \<le> real_of_int (2 ^ 53) * 2 powi ?e"
    using pow2_pos [of ?e] by (simp only: mult_le_cancel_right_pos)
  moreover have "real_of_int (2 ^ 53) * 2 powi ?e = 2 powi (?e + 53)"
    by (simp add: power_int_add)
  ultimately have "real_of_int (py_round (x / 2 powi ?e)) * 2 powi ?e \<le> 2 powi (?e + 53)"
    by (simp only:)
  moreover from assms have "fl x = real_of_int (py_round (x / 2 powi ?e)) * 2 powi ?e"
    by (simp add: fl_def)
  ultimately show ?thesis
    by (simp only:)
qed

text \<open>Rounding to a double keeps the order of non-negative numbers.\<close>

lemma fl_mono:
  assumes "0 \<le> x" and "x \<le> y"
  shows "fl x \<le> fl y"
proof (cases "x = 0")
  case True
  with assms fl_nonneg [of y] show ?thesis
    by (simp add: fl_def)
next
  case False
  with assms have x: "0 < x" and y: "0 < y"
    by simp_all
  from fl_exp_mono [OF x assms(2)] have le: "fl_exp x \<le> fl_exp y" .
  show ?thesis
  proof (cases "fl_exp x = fl_exp y")
    case True
    let ?e = "fl_exp y"
    from assms(2) have "x / 2 powi ?e \<le> y / 2 powi ?e"
      using pow2_pos [of ?e] by (simp add: divide_right_mono)
    then have "py_round (x / 2 powi ?e) \<le> py_round (y / 2 powi ?e)"
      by (rule py_round_mono)
    then have "real_of_int (py_round (x / 2 powi ?e)) \<le> real_of_int (py_round (y / 2 powi ?e))"
      by (simp only: of_int_le_iff)
    then have "real_of_int (py_round (x / 2 powi ?e)) * 2 powi ?e
        \<le> real_of_int (py_round (y / 2 powi ?e)) * 2 powi ?e"
      using pow2_pos [of ?e] by (simp only: mult_le_cancel_right_pos)
    with x y True show ?thesis
      by (simp add: fl_def)
  next
    case False
    with le have lt: "fl_exp x + 1 \<le> fl_exp y"
      by simp
    have "- 1074 \<le> fl_exp x"
      by (simp add: fl_exp_def)
    with lt have "- 1074 < fl_exp y"
      by simp
    from fl_lower [OF y this] have ly: "2 powi (fl_exp y + 52) \<le> fl y" .
    from lt have "fl_exp x + 53 \<le> fl_exp y + 52"
      by simp
    then have "(2::real) powi (fl_exp x + 53) \<le> 2 powi (fl_exp y + 52)"
      by (rule power_int_increasing) simp
    with fl_upper [OF x] ly show ?thesis
      by linarith
  qed
qed

text \<open>Every integer from 0 to \<open>2 ^ 53\<close> is a double.\<close>

lemma fl_of_int:
  assumes "0 \<le> n" and "n \<le> 2 ^ 53"
  shows "fl (of_int n) = of_int n"
proof -
  consider "n = 0" | "n = 2 ^ 53" | "0 < n" "n < 2 ^ 53"
    using assms by fastforce
  then show ?thesis
  proof cases
    case 1
    then show ?thesis
      by (simp add: fl_def)
  next
    case 2
    have "fl 9007199254740992 = 9007199254740992"
      by code_simp
    with 2 show ?thesis
      by simp
  next
    case 3
    let ?x = "real_of_int n"
    let ?e = "fl_exp ?x"
    from 3 have x1: "1 \<le> ?x"
      by simp
    from 3(2) have "bitlen n \<le> 53"
      by (simp add: bitlen_le_iff_power)
    with x1 3(1) have e0: "?e \<le> 0"
      by (simp add: fl_exp_def ilog2_def)
    then have p: "(2::real) powi ?e = 1 / 2 ^ nat (- ?e)"
      using power_int_minus_divide [of "2::real" "- ?e"] by (simp add: power_int_nonneg_exp)
    then have "?x / 2 powi ?e = real_of_int (n * 2 ^ nat (- ?e))"
      by simp
    then have "py_round (?x / 2 powi ?e) = n * 2 ^ nat (- ?e)"
      by (simp only: py_round_of_int)
    then have "real_of_int (py_round (?x / 2 powi ?e)) * 2 powi ?e = ?x"
      by (simp add: p)
    with 3(1) show ?thesis
      by (simp add: fl_def)
  qed
qed

lemma fl_one: "fl 1 = 1"
  using fl_of_int [of 1] by simp

lemma float_of_int_exact: "0 \<le> w \<Longrightarrow> w \<le> 2 ^ 53 \<Longrightarrow> float_of_int w = of_int w"
  by (simp add: float_of_int_def fl_of_int)

lemma float_of_int_nonneg: "0 \<le> w \<Longrightarrow> 0 \<le> float_of_int w"
  by (simp add: float_of_int_def fl_nonneg)

subsection \<open>The proportional bar\<close>

lemma clamp_bounds: "0 \<le> clamp v 0 100 \<and> clamp v 0 100 \<le> 100"
  by (simp add: clamp_def)



lemma fdiv_clamp_bounds: "0 \<le> fdiv (clamp v 0 100) 100" "fdiv (clamp v 0 100) 100 \<le> 1"
proof -
  have c: "0 \<le> clamp v 0 100 / 100" "clamp v 0 100 / 100 \<le> 1"
    using clamp_bounds [of v] by simp_all
  from c(1) show "0 \<le> fdiv (clamp v 0 100) 100"
    by (simp add: fdiv_def fl_nonneg)
  from fl_mono [OF c] show "fdiv (clamp v 0 100) 100 \<le> 1"
    by (simp add: fdiv_def fl_one)
qed

lemma filled_nonneg:
  assumes "0 \<le> w"
  shows "0 \<le> filled v w"
proof -
  have "0 \<le> fdiv (clamp v 0 100) 100 * float_of_int w"
    using fdiv_clamp_bounds(1) [of v] float_of_int_nonneg [OF assms] by (rule mult_nonneg_nonneg)
  then have "0 \<le> fmul (fdiv (clamp v 0 100) 100) (float_of_int w)"
    by (simp add: fmul_def fl_nonneg)
  from py_round_mono [OF this] show ?thesis
    by (simp add: filled_def py_round_of_int [of 0, simplified])
qed

lemma filled_le:
  assumes "0 \<le> w" and "w \<le> 2 ^ 53"
  shows "filled v w \<le> w"
proof -
  let ?q = "fdiv (clamp v 0 100) 100"
  from assms have W: "float_of_int w = of_int w"
    by (rule float_of_int_exact)
  from assms(1) have w: "0 \<le> real_of_int w"
    by simp
  have lo: "0 \<le> ?q * real_of_int w"
    using fdiv_clamp_bounds(1) [of v] w by (rule mult_nonneg_nonneg)
  from mult_right_mono [OF fdiv_clamp_bounds(2) w, of v]
  have hi: "?q * real_of_int w \<le> real_of_int w"
    by simp
  from fl_mono [OF lo hi] have "fmul ?q (float_of_int w) \<le> real_of_int w"
    by (simp add: fmul_def W fl_of_int [OF assms])
  from py_round_mono [OF this] show ?thesis
    by (simp add: filled_def py_round_of_int)
qed





lemma length_proportion_bar_gen:
  "int (length (proportion_bar v w)) = 2 + (int (nat (filled v w)) + int (nat (w - filled v w)))"
  by (simp add: proportion_bar_def Let_def length_str_mul)

lemma length_proportion_bar:
  assumes "0 \<le> w" and "w \<le> 2 ^ 53"
  shows "int (length (proportion_bar v w)) = w + 2"
  using filled_nonneg [OF assms(1), of v] filled_le [OF assms, of v]
  by (simp add: length_proportion_bar_gen)










subsection \<open>Ranking\<close>

lemma ranked_before_key: "ranked_before a b \<longleftrightarrow> rank_key b \<le> rank_key a"
  by (auto simp: ranked_before_def rank_key_def)

lemma sorted_wrt_rank: "sorted_wrt ranked_before (rank procs)"
proof -
  have "sorted (map rank_key (sort_key rank_key (rev procs)))"
    by (rule sorted_sort_key)
  then have "sorted_wrt (\<lambda>a b. rank_key a \<le> rank_key b) (sort_key rank_key (rev procs))"
    by (simp add: sorted_map)
  then show ?thesis
    by (simp add: rank_def sort_reverse_def sorted_wrt_rev ranked_before_key)
qed

lemma mset_rank: "mset (rank procs) = mset procs"
  by (simp add: rank_def sort_reverse_def)

lemma rank_example:
  "rank [\<lparr>pid = p1, name = n1, cpu = 10, mem = 5\<rparr>,
         \<lparr>pid = p2, name = n2, cpu = 50, mem = 1\<rparr>,
         \<lparr>pid = p3, name = n3, cpu = 50, mem = 99\<rparr>]
   = [\<lparr>pid = p3, name = n3, cpu = 50, mem = 99\<rparr>,
      \<lparr>pid = p2, name = n2, cpu = 50, mem = 1\<rparr>,
      \<lparr>pid = p1, name = n1, cpu = 10, mem = 5\<rparr>]"
  by (simp add: rank_def sort_reverse_def rank_key_def)

text \<open>
  Claim C4. The ranked list is a rearrangement of the sampled records in which every
  record stands before every record of smaller CPU, and before every record of equal CPU
  and smaller memory; the three records \<open>(10, 5)\<close>, \<open>(50, 1)\<close>, \<open>(50, 99)\<close> come out as
  \<open>(50, 99)\<close>, \<open>(50, 1)\<close>, \<open>(10, 5)\<close>.
\<close>

theorem rank_descending:
  "sorted_wrt ranked_before (rank procs)
   \<and> mset (rank procs) = mset procs
   \<and> rank [\<lparr>pid = p1, name = n1, cpu = 10, mem = 5\<rparr>,
            \<lparr>pid = p2, name = n2, cpu = 50, mem = 1\<rparr>,
            \<lparr>pid = p3, name = n3, cpu = 50, mem = 99\<rparr>]
     = [\<lparr>pid = p3, name = n3, cpu = 50, mem = 99\<rparr>,
        \<lparr>pid = p2, name = n2, cpu = 50, mem = 1\<rparr>,
        \<lparr>pid = p1, name = n1, cpu = 10, mem = 5\<rparr>]"
  using sorted_wrt_rank mset_rank rank_example by blast

text \<open>
  Claim C5. Ranking is stable: the records that share one CPU value and one memory value
  stand in the ranked list in the order they had in the input, although the sort runs
  with \<open>reverse=True\<close>.
\<close>

theorem rank_stable:
  "filter (\<lambda>r. cpu r = c \<and> mem r = m) (rank procs) = filter (\<lambda>r. cpu r = c \<and> mem r = m) procs"
proof -
  have eq: "(\<lambda>r. cpu r = c \<and> mem r = m) = (\<lambda>r. rank_key r = (c, m))"
    by (auto simp: rank_key_def)
  have "filter (\<lambda>r. rank_key r = (c, m)) (rank procs)
          = rev (filter (\<lambda>r. rank_key r = (c, m)) (sort_key rank_key (rev procs)))"
    by (simp add: rank_def sort_reverse_def rev_filter)
  also have "\<dots> = rev (filter (\<lambda>r. rank_key r = (c, m)) (rev procs))"
    by (simp only: sort_key_stable)
  also have "\<dots> = filter (\<lambda>r. rank_key r = (c, m)) procs"
    by (simp add: rev_filter)
  finally show ?thesis
    by (simp only: eq)
qed

subsection \<open>The sampler\<close>

lemma fetch_one_accessible: "accessible p \<Longrightarrow> fetch_one p = Inr (record_of p)"
  by (auto simp: accessible_def fetch_one_def record_of_def slice_to_def MAX_NAME_LEN_def
      split: sum.splits)

lemma fetch_one_skipped:
  assumes "\<not> accessible p" and "skippable (cpu_percent p)" and "skippable (memory_percent p)"
  shows "fetch_one p = Inl NoSuchProcess \<or> fetch_one p = Inl AccessDenied"
proof (cases "cpu_percent p")
  case (Inl e)
  with assms(2) show ?thesis
    by (cases e) (simp_all add: fetch_one_def skippable_def)
next
  case (Inr c)
  with assms(1) obtain e where m: "memory_percent p = Inl e"
    by (cases "memory_percent p") (simp_all add: accessible_def)
  with assms(3) Inr show ?thesis
    by (cases e) (simp_all add: fetch_one_def skippable_def)
qed

lemma fetch_loop_skips:
  assumes "\<forall>p\<in>set ps. skippable (cpu_percent p) \<and> skippable (memory_percent p)"
  shows "fetch_loop ps acc = Inr (acc @ map record_of (filter accessible ps))"
  using assms
proof (induction ps arbitrary: acc)
  case Nil
  show ?case by simp
next
  case (Cons p ps)
  then have ih: "\<And>acc. fetch_loop ps acc = Inr (acc @ map record_of (filter accessible ps))"
    by simp
  show ?case
  proof (cases "accessible p")
    case True
    then show ?thesis
      by (simp add: fetch_one_accessible ih)
  next
    case False
    with Cons.prems fetch_one_skipped [of p]
    have "fetch_one p = Inl NoSuchProcess \<or> fetch_one p = Inl AccessDenied"
      by simp
    with False show ?thesis
      by (auto simp: ih)
  qed
qed

text \<open>
  Claim C8. When the metric queries of the enumerated processes signal nothing but
  "no such process" and "access denied", \<open>fetch_processes\<close> raises nothing and returns,
  in the order of the table, the record of every process whose two queries answered;
  the processes whose query signalled one of the two conditions are left out. Whatever
  it returns holds no identifier that is absent from the table it enumerated, so a
  process gone from the table at a tick is not in the output of that tick.
\<close>

theorem fetch_processes_skips:
  assumes "\<forall>p\<in>set table. skippable (cpu_percent p) \<and> skippable (memory_percent p)"
  shows "fetch_processes table = Inr (map record_of (filter accessible table))
    \<and> (\<forall>procs q. fetch_processes table = Inr procs \<longrightarrow> q \<notin> info_pid ` set table
          \<longrightarrow> q \<notin> pid ` set procs)"
proof -
  have r: "fetch_processes table = Inr (map record_of (filter accessible table))"
    unfolding fetch_processes_def using fetch_loop_skips [OF assms, of "[]"] by simp
  have "pid ` set (map record_of (filter accessible table)) \<subseteq> info_pid ` set table"
    by (auto simp: record_of_def)
  with r show ?thesis
    by auto
qed

theorem fetch_processes_skips_witness:
  "fetch_processes
     [\<lparr>info_pid = 1, info_name = Some ''init'', cpu_percent = Inr 2, memory_percent = Inr 3\<rparr>,
      \<lparr>info_pid = 2, info_name = Some ''gone'', cpu_percent = Inl NoSuchProcess,
         memory_percent = Inr 1\<rparr>,
      \<lparr>info_pid = 3, info_name = None, cpu_percent = Inr 5, memory_percent = Inl AccessDenied\<rparr>,
      \<lparr>info_pid = 4, info_name = None, cpu_percent = Inr 7, memory_percent = Inr 8\<rparr>]
   = Inr [\<lparr>pid = 1, name = ''init'', cpu = 2, mem = 3\<rparr>, \<lparr>pid = 4, name = [], cpu = 7, mem = 8\<rparr>]
   \<and> 9 \<notin> pid ` set [\<lparr>pid = 1, name = ''init'', cpu = 2, mem = 3\<rparr>,
                        \<lparr>pid = 4, name = [], cpu = 7, mem = 8\<rparr>]"
  using fetch_processes_skips
    [of "[\<lparr>info_pid = 1, info_name = Some ''init'', cpu_percent = Inr 2, memory_percent = Inr 3\<rparr>,
      \<lparr>info_pid = 2, info_name = Some ''gone'', cpu_percent = Inl NoSuchProcess,
         memory_percent = Inr 1\<rparr>,
      \<lparr>info_pid = 3, info_name = None, cpu_percent = Inr 5, memory_percent = Inl AccessDenied\<rparr>,
      \<lparr>info_pid = 4, info_name = None, cpu_percent = Inr 7, memory_percent = Inr 8\<rparr>]"]
  by (simp add: skippable_def accessible_def record_of_def name_or_empty_def)

subsection \<open>The display\<close>

lemma slice_to_all: "int (length xs) \<le> n \<Longrightarrow> slice_to xs n = xs"
  by (simp add: slice_to_def)

lemma length_slice_to: "0 \<le> n \<Longrightarrow> length (slice_to xs n) = min (length xs) (nat n)"
  by (simp add: slice_to_def)

lemma length_ljust: "length (ljust s w) = max (length s) (nat w)"
  by (simp add: ljust_def length_str_mul)

lemma length_rjust: "length (rjust s w) = max (length s) (nat w)"
  by (simp add: rjust_def length_str_mul)

lemma length_pid_field: "length (ljust (slice_to (str_int i) pid_w) pid_w) = 6"
  by (simp add: length_ljust length_slice_to pid_w_def)

lemma length_name_field: "length (ljust (slice_to n MAX_NAME_LEN) name_w) = 26"
  by (simp add: length_ljust length_slice_to name_w_def MAX_NAME_LEN_def)

lemma bar_widths_le:
  assumes "tw \<le> 2 ^ 54"
  shows "cpu_bar_w tw - 2 \<le> 2 ^ 53" and "mem_bar_w tw - 2 \<le> 2 ^ 53"
proof -
  from assms have "tw \<le> 18014398509481984"
    by simp
  then have "cpu_bar_w tw - 2 \<le> 9007199254740992 \<and> mem_bar_w tw - 2 \<le> 9007199254740992"
    unfolding mem_bar_w_def cpu_bar_w_def bar_space_eq by linarith
  then show "cpu_bar_w tw - 2 \<le> 2 ^ 53" and "mem_bar_w tw - 2 \<le> 2 ^ 53"
    by simp_all
qed

lemma length_cpu_bar:
  assumes "tw \<le> 2 ^ 54"
  shows "int (length (cpu_bar tw p)) = cpu_bar_w tw"
proof -
  from cpu_bar_w_ge5 [of tw] have "0 \<le> cpu_bar_w tw - 2"
    by simp
  from length_proportion_bar [OF this bar_widths_le(1) [OF assms]] show ?thesis
    by (simp add: cpu_bar_def)
qed

lemma length_mem_bar:
  assumes "tw \<le> 2 ^ 54"
  shows "int (length (mem_bar tw p)) = mem_bar_w tw"
proof -
  from mem_bar_w_ge5 [of tw] have "0 \<le> mem_bar_w tw - 2"
    by simp
  from length_proportion_bar [OF this bar_widths_le(2) [OF assms]] show ?thesis
    by (simp add: mem_bar_def)
qed

lemma length_data_line_gen:
  assumes "length (fmt_1f (cpu p)) \<le> 6" and "length (fmt_1f (mem p)) \<le> 6"
  shows "int (length (data_line tw p))
    = 51 + (int (length (cpu_bar tw p)) + int (length (mem_bar tw p)))"
proof -
  from assms have f: "length (rjust (fmt_1f (cpu p)) cpu_pct_w) = 6"
    "length (rjust (fmt_1f (mem p)) mem_pct_w) = 6"
    by (simp_all add: length_rjust cpu_pct_w_def mem_pct_w_def)
  show ?thesis
    by (simp add: data_line_def length_pid_field length_name_field f)
qed

lemma length_data_line:
  assumes "length (fmt_1f (cpu p)) \<le> 6" and "length (fmt_1f (mem p)) \<le> 6"
    and "tw \<le> 2 ^ 54"
  shows "int (length (data_line tw p)) = 51 + bar_space tw"
  by (simp only: length_data_line_gen [OF assms(1,2)] length_cpu_bar [OF assms(3)]
      length_mem_bar [OF assms(3)] bar_widths_sum)

lemma length_header_line: "int (length (header_line tw)) = 53 + bar_space tw"
proof -
  have "length (ljust ''CPU BAR'' (cpu_bar_w tw + 2)) = nat (cpu_bar_w tw + 2)"
    using cpu_bar_w_ge5 [of tw] by (simp add: length_ljust)
  moreover have "length (ljust ''MEM BAR'' (mem_bar_w tw + 2)) = nat (mem_bar_w tw + 2)"
    using mem_bar_w_ge5 [of tw] by (simp add: length_ljust)
  ultimately have "int (length (header_line tw)) = 49 + (cpu_bar_w tw + mem_bar_w tw) + 4"
    using cpu_bar_w_ge5 [of tw] mem_bar_w_ge5 [of tw]
    by (simp add: header_line_def length_ljust length_rjust pid_w_def name_w_def MAX_NAME_LEN_def
        cpu_pct_w_def mem_pct_w_def)
  then show ?thesis
    by (simp add: bar_widths_sum)
qed

lemma data_rows_draw:
  "data_rows (draw logo dash tot procs tw top_n refresh) = map (data_line tw) (slice_to procs top_n)"
  by (simp add: data_rows_def draw_def butlast_append)




text \<open>
  Claim C9. With \<open>top_n\<close> at least 1 and larger than the number of records, \<open>draw\<close>
  prints its head, one data row for each record and nothing in their place or after
  them, and a foot whose count of shown processes is the number of records, which is
  \<open>min(top_n, len(procs))\<close>. Nothing in \<open>draw\<close> can raise on such an input: the slice
  \<open>procs[:top_n]\<close> is total and all padding widths are positive.
\<close>

theorem draw_top_n_exceeds:
  assumes "1 \<le> top_n" and "int (length procs) < top_n"
  shows "draw logo dash tot procs tw top_n refresh =
      [logo, title_line dash top_n refresh, rule_line tw, header_line tw, rule_line tw]
      @ map (data_line tw) procs
      @ [rule_line tw,
         ''Processes: '' @ str_int tot @ '' | Showing top '' @ str_int (int (length procs))
         @ '' by CPU usage'']
    \<and> data_rows (draw logo dash tot procs tw top_n refresh) = map (data_line tw) procs
    \<and> length (data_rows (draw logo dash tot procs tw top_n refresh)) = length procs
    \<and> min top_n (int (length procs)) = int (length procs)"
proof -
  from assms(2) have s: "slice_to procs top_n = procs"
    by (simp add: slice_to_all)
  from assms(2) have m: "min top_n (int (length procs)) = int (length procs)"
    by simp
  have d: "data_rows (draw logo dash tot procs tw top_n refresh) = map (data_line tw) procs"
    by (simp add: data_rows_draw s)
  have "draw logo dash tot procs tw top_n refresh =
      [logo, title_line dash top_n refresh, rule_line tw, header_line tw, rule_line tw]
      @ map (data_line tw) procs
      @ [rule_line tw,
         ''Processes: '' @ str_int tot @ '' | Showing top '' @ str_int (int (length procs))
         @ '' by CPU usage'']"
    by (simp add: draw_def s footer_line_def m)
  with d m show ?thesis
    by simp
qed

theorem draw_top_n_exceeds_witness:
  "(1::int) \<le> 5
   \<and> int (length [\<lparr>pid = 4321, name = ''python3'', cpu = 12.5, mem = 3\<rparr>,
                    \<lparr>pid = 1, name = ''init'', cpu = 0, mem = 0.25\<rparr>]) < 5
   \<and> data_rows (draw ''logo'' ''-'' 7
         [\<lparr>pid = 4321, name = ''python3'', cpu = 12.5, mem = 3\<rparr>,
          \<lparr>pid = 1, name = ''init'', cpu = 0, mem = 0.25\<rparr>] 64 5 1)
       = [''4321   python3                      12.5% [   ]    3.0% [   ]'',
          ''1      init                          0.0% [   ]    0.2% [   ]'']
   \<and> last (draw ''logo'' ''-'' 7
         [\<lparr>pid = 4321, name = ''python3'', cpu = 12.5, mem = 3\<rparr>,
          \<lparr>pid = 1, name = ''init'', cpu = 0, mem = 0.25\<rparr>] 64 5 1)
       = ''Processes: 7 | Showing top 2 by CPU usage''"
proof -
  let ?procs = "[\<lparr>pid = 4321, name = ''python3'', cpu = 12.5, mem = 3\<rparr>,
                 \<lparr>pid = 1, name = ''init'', cpu = 0, mem = 0.25\<rparr>]"
  have h1: "(1::int) \<le> 5"
    by simp
  have h2: "int (length ?procs) < 5"
    by simp
  note t = draw_top_n_exceeds [OF h1 h2, of "''logo''" "''-''" 7 64 1]
  have r1: "data_line 64 \<lparr>pid = 4321, name = ''python3'', cpu = 12.5, mem = 3\<rparr>
      = ''4321   python3                      12.5% [   ]    3.0% [   ]''"
    by code_simp
  have r2: "data_line 64 \<lparr>pid = 1, name = ''init'', cpu = 0, mem = 0.25\<rparr>
      = ''1      init                          0.0% [   ]    0.2% [   ]''"
    by code_simp
  have f: "''Processes: '' @ str_int 7 @ '' | Showing top '' @ str_int (int (length ?procs))
      @ '' by CPU usage'' = ''Processes: 7 | Showing top 2 by CPU usage''"
    by code_simp
  from t have "data_rows (draw ''logo'' ''-'' 7 ?procs 64 5 1) = map (data_line 64) ?procs"
    by blast
  then have c1: "data_rows (draw ''logo'' ''-'' 7 ?procs 64 5 1)
      = [''4321   python3                      12.5% [   ]    3.0% [   ]'',
         ''1      init                          0.0% [   ]    0.2% [   ]'']"
    by (simp only: list.map r1 r2)
  from t have "last (draw ''logo'' ''-'' 7 ?procs 64 5 1)
      = ''Processes: '' @ str_int 7 @ '' | Showing top '' @ str_int (int (length ?procs))
        @ '' by CPU usage''"
    by (simp del: str_nat.simps)
  then have c2: "last (draw ''logo'' ''-'' 7 ?procs 64 5 1)
      = ''Processes: 7 | Showing top 2 by CPU usage''"
    by (simp only: f)
  from h1 h2 c1 c2 show ?thesis
    by blast
qed




lemma header_longer_than_row:
  assumes "length (fmt_1f (cpu p)) \<le> 6" and "length (fmt_1f (mem p)) \<le> 6"
    and "tw \<le> 2 ^ 54"
  shows "int (length (header_line tw)) = int (length (data_line tw p)) + 2"
  by (simp add: length_header_line length_data_line [OF assms])

text \<open>
  Claim C3. The header row is to put every column title over its column, at the same
  offset and with the same width as in the data rows. On a terminal of 80 columns the
  header has 79 characters and a data row 77: the title \<open>CPU BAR\<close> starts at offset 41
  and the bar of a row at offset 42, behind the percent sign that a row appends to its
  six-character CPU field, and the header pads each bar title to two characters more
  than the bar takes.
\<close>

theorem header_row_offsets:
  "header_line 80
     = ''PID    NAME                         CPU% CPU BAR           MEM% MEM BAR        ''
   \<and> data_line 80 \<lparr>pid = 1, name = ''a'', cpu = 1, mem = 1\<rparr>
     = ''1      a                             1.0% [           ]    1.0% [           ]''
   \<and> take 7 (drop 41 (header_line 80)) = ''CPU BAR''
   \<and> take 13 (drop 42 (data_line 80 \<lparr>pid = 1, name = ''a'', cpu = 1, mem = 1\<rparr>))
     = cpu_bar 80 \<lparr>pid = 1, name = ''a'', cpu = 1, mem = 1\<rparr>
   \<and> length (header_line 80) = 79
   \<and> length (data_line 80 \<lparr>pid = 1, name = ''a'', cpu = 1, mem = 1\<rparr>) = 77"
  by code_simp

end
